theory Spec2Isabelle
  imports Main "HOL-Library.Multiset"
begin

section \<open>Slot scoring (scoring.js)\<close>

text \<open>
  A shallow embedding of the scoring engine of \<^verbatim>\<open>scoring.js\<close>: the range test, the band
  classifier, the preference boost, the block test, the aggregation over the 48 half-hour
  UTC slots and the ranking of slot records.

  Numbers. Minute counts, scores and boosts are integers (exact in the host's double
  arithmetic), so they are \<^typ>\<open>int\<close>; counters that start at 0 and only grow by 1 are
  \<^typ>\<open>nat\<close>. The one place where the program itself makes a value that is no integer is
  the parse of a window string, which yields NaN on a non-numeric hour: the result of the
  parse and the arguments of the range test are therefore of the type \<open>jsnum\<close> below.
\<close>

subsection \<open>Host numbers with NaN\<close>

datatype jsnum = Num int | NaN

text \<open>\<^verbatim>\<open>a === b\<close>, \<^verbatim>\<open>a < b\<close> and \<^verbatim>\<open>a >= b\<close> on numbers: every comparison with NaN is false.\<close>

fun js_eq :: "jsnum \<Rightarrow> jsnum \<Rightarrow> bool" where
  "js_eq (Num a) (Num b) = (a = b)"
| "js_eq _ _ = False"

fun js_lt :: "jsnum \<Rightarrow> jsnum \<Rightarrow> bool" where
  "js_lt (Num a) (Num b) = (a < b)"
| "js_lt _ _ = False"

fun js_ge :: "jsnum \<Rightarrow> jsnum \<Rightarrow> bool" where
  "js_ge (Num a) (Num b) = (a \<ge> b)"
| "js_ge _ _ = False"

text \<open>\<^verbatim>\<open>a * b\<close> and \<^verbatim>\<open>a + b\<close>: NaN is absorbing.\<close>

fun js_mul :: "jsnum \<Rightarrow> jsnum \<Rightarrow> jsnum" where
  "js_mul (Num a) (Num b) = Num (a * b)"
| "js_mul _ _ = NaN"

fun js_add :: "jsnum \<Rightarrow> jsnum \<Rightarrow> jsnum" where
  "js_add (Num a) (Num b) = Num (a + b)"
| "js_add _ _ = NaN"

text \<open>
  \<^verbatim>\<open>v || 0\<close> where \<open>v\<close> is a number or \<^verbatim>\<open>undefined\<close> (\<open>None\<close>): the falsy values
  \<^verbatim>\<open>undefined\<close>, NaN and 0 all give 0.
\<close>

fun js_or0 :: "jsnum option \<Rightarrow> jsnum" where
  "js_or0 None = Num 0"
| "js_or0 (Some NaN) = Num 0"
| "js_or0 (Some (Num n)) = Num n"

text \<open>\<^verbatim>\<open>v * 60\<close> where \<open>v\<close> may be \<^verbatim>\<open>undefined\<close>: \<^verbatim>\<open>undefined * 60\<close> is NaN.\<close>

fun js_times60 :: "jsnum option \<Rightarrow> jsnum" where
  "js_times60 None = NaN"
| "js_times60 (Some v) = js_mul v (Num 60)"

subsection \<open>The host environment\<close>

text \<open>
  What the program takes from outside the repository: the host's conversion
  \<^verbatim>\<open>Number\<close> of a string to a number, the Luxon library's conversion of a UTC instant to
  the wall-clock time of a zone, and the clock's date. They are the fields of one record
  that every function using them takes as its first argument.
\<close>

record zoned =
  hour :: int
  minute :: int
  toISO :: string
  toFormat :: "string \<Rightarrow> string"

record host =
  Number :: "string \<Rightarrow> jsnum"
  \<comment> \<open>\<^verbatim>\<open>DateTime.fromISO(dateISO, {zone: "utc"}).startOf("day").plus({minutes}).setZone(tz)\<close>\<close>
  zoneTime :: "string \<Rightarrow> int \<Rightarrow> string option \<Rightarrow> zoned"
  \<comment> \<open>\<^verbatim>\<open>DateTime.now().toISODate()\<close>\<close>
  today :: string

subsection \<open>Rules\<close>

record band_range =
  band_start :: int
  band_end :: int
  score :: int

record boost_range =
  boost_start :: int
  boost_end :: int
  boost :: int

record rules =
  green :: band_range
  yellow1 :: band_range
  yellow2 :: band_range
  redScore :: int
  blockedScore :: int
  earlyBirdBoostRange :: boost_range
  nightOwlBoostRange :: boost_range

definition DEFAULT_RULES :: rules where
  "DEFAULT_RULES =
     \<lparr> green = \<lparr> band_start = 9 * 60, band_end = 18 * 60, score = 3 \<rparr>,
       yellow1 = \<lparr> band_start = 6 * 60 + 30, band_end = 9 * 60, score = 2 \<rparr>,
       yellow2 = \<lparr> band_start = 18 * 60, band_end = 23 * 60 + 30, score = 2 \<rparr>,
       redScore = 0,
       blockedScore = - 100,
       earlyBirdBoostRange = \<lparr> boost_start = 7 * 60, boost_end = 10 * 60, boost = 1 \<rparr>,
       nightOwlBoostRange = \<lparr> boost_start = 18 * 60, boost_end = 22 * 60, boost = 1 \<rparr> \<rparr>"

subsection \<open>Parsing a window bound\<close>

text \<open>\<^verbatim>\<open>s.split(sep)\<close> for a one-character separator: never the empty array.\<close>

fun split :: "char \<Rightarrow> string \<Rightarrow> string list" where
  "split sep [] = [[]]"
| "split sep (c # cs) =
     (if c = sep then [] # split sep cs
      else (case split sep cs of
              [] \<Rightarrow> [[c]]
            | p # ps \<Rightarrow> (c # p) # ps))"

text \<open>The array pattern \<^verbatim>\<open>[hh, mm] = a\<close>: an element past the end is \<^verbatim>\<open>undefined\<close>.\<close>

fun at_index :: "'a list \<Rightarrow> nat \<Rightarrow> 'a option" where
  "at_index [] i = None"
| "at_index (x # xs) 0 = Some x"
| "at_index (x # xs) (Suc i) = at_index xs i"

definition parseHHMMToMinutes :: "host \<Rightarrow> string \<Rightarrow> jsnum" where
  "parseHHMMToMinutes H hhmm =
     (let parts = map (Number H) (split CHR '':'' hhmm);
          hh = at_index parts 0;
          mm = at_index parts 1
      in js_add (js_times60 hh) (js_or0 mm))"

subsection \<open>The range test\<close>

definition isInRange :: "jsnum \<Rightarrow> jsnum \<Rightarrow> jsnum \<Rightarrow> bool" where
  "isInRange localMin start end' =
     (if js_eq start end' then True
      else if js_lt start end' then js_ge localMin start \<and> js_lt localMin end'
      else js_ge localMin start \<or> js_lt localMin end')"

subsection \<open>Band classifier and preference boost\<close>

datatype band = BandGreen | BandYellow | BandRed

record scored =
  baseScore :: int
  band :: band

definition getBaseScoreAndBand :: "int \<Rightarrow> rules \<Rightarrow> scored" where
  "getBaseScoreAndBand localMin rules =
     (if isInRange (Num localMin) (Num (band_start (green rules))) (Num (band_end (green rules)))
      then \<lparr> baseScore = score (green rules), band = BandGreen \<rparr>
      else if isInRange (Num localMin) (Num (band_start (yellow1 rules))) (Num (band_end (yellow1 rules)))
            \<or> isInRange (Num localMin) (Num (band_start (yellow2 rules))) (Num (band_end (yellow2 rules)))
      then \<lparr> baseScore = score (yellow1 rules), band = BandYellow \<rparr>
      else \<lparr> baseScore = redScore rules, band = BandRed \<rparr>)"

definition preferenceBoost :: "int \<Rightarrow> string option \<Rightarrow> rules \<Rightarrow> int" where
  "preferenceBoost localMin preference rules =
     (if preference = Some ''early_bird'' then
        (let r = earlyBirdBoostRange rules
         in if isInRange (Num localMin) (Num (boost_start r)) (Num (boost_end r)) then boost r else 0)
      else if preference = Some ''night_owl'' then
        (let r = nightOwlBoostRange rules
         in if isInRange (Num localMin) (Num (boost_start r)) (Num (boost_end r)) then boost r else 0)
      else 0)"

subsection \<open>Blocked windows\<close>

record window =
  win_start :: string
  win_end :: string
  win_date :: "string option"

text \<open>
  The callback of \<^verbatim>\<open>noMeetingWindows.some\<close>: a window with a date that is neither absent
  nor empty is skipped unless the local date is given and equal to it.
\<close>

definition windowMatches :: "host \<Rightarrow> int \<Rightarrow> string option \<Rightarrow> window \<Rightarrow> bool" where
  "windowMatches H localMin localDateStr w =
     (if win_date w \<noteq> None \<and> win_date w \<noteq> Some [] \<and>
         (localDateStr = None \<or> localDateStr \<noteq> win_date w)
      then False
      else (let start = parseHHMMToMinutes H (win_start w);
                end' = parseHHMMToMinutes H (win_end w)
            in isInRange (Num localMin) start end'))"

definition isBlocked :: "host \<Rightarrow> int \<Rightarrow> window list option \<Rightarrow> string option \<Rightarrow> bool" where
  "isBlocked H localMin noMeetingWindows localDateStr =
     (case noMeetingWindows of
        None \<Rightarrow> False
      | Some ws \<Rightarrow>
          if length ws = 0 then False
          else list_ex (windowMatches H localMin localDateStr) ws)"

subsection \<open>Arrays in a store\<close>

text \<open>
  An array is an object: two variables may hold the same array, and \<^verbatim>\<open>sort\<close> changes
  the array it is called on. The store is the list of the arrays allocated so far and a
  reference is an index into it. A reference the program is handed is always allocated.
\<close>

type_synonym ref = nat
type_synonym 'a store = "'a list list"

definition alloc :: "'a store \<Rightarrow> 'a list \<Rightarrow> 'a store \<times> ref" where
  "alloc st xs = (st @ [xs], length st)"

subsection \<open>The 48 slots\<close>

function pushSlots :: "nat \<Rightarrow> int list \<Rightarrow> int list" where
  "pushSlots i slots = (if i < 48 then pushSlots (i + 1) (slots @ [int i * 30]) else slots)"
  by pat_completeness auto
termination
  by (relation "measure (\<lambda>(i, slots). 48 - i)") auto

declare pushSlots.simps [simp del]

definition generateUtcSlots48 :: "int list" where
  "generateUtcSlots48 = pushSlots 0 []"

subsection \<open>Local time of a slot\<close>

record localTime =
  localMin :: int
  localISO :: string
  localLabel :: string
  localDate :: string

definition localMinutesFromUtcSlot :: "host \<Rightarrow> string \<Rightarrow> int \<Rightarrow> string option \<Rightarrow> localTime" where
  "localMinutesFromUtcSlot H dateISO utcStartMin tz =
     (let local = zoneTime H dateISO utcStartMin tz
      in \<lparr> localMin = hour local * 60 + minute local,
           localISO = toISO local,
           localLabel = toFormat local ''HH:mm'',
           localDate = toFormat local ''yyyy-MM-dd'' \<rparr>)"

subsection \<open>Participants and options\<close>

record user =
  name :: string
  timezone :: "string option"
  team :: "string option"
  preference :: "string option"
  noMeetingWindows :: "window list option"

text \<open>
  The options object; \<open>None\<close> is an absent option, which takes its default. The name
  collections are given as arrays of names and made into sets by the program.
\<close>

record opts =
  opt_dateISO :: "string option"
  opt_rules :: "rules option"
  opt_selectedNames :: "string list option"
  opt_team :: "string option"
  opt_excludeNames :: "string list option"
  opt_includeYourselfName :: "string option"
  opt_excludeNullTimezones :: "bool option"
  opt_includeRedParticipants :: "bool option"

text \<open>Truthiness of an optional string: absent and the empty string are falsy.\<close>

fun truthy :: "string option \<Rightarrow> bool" where
  "truthy None = False"
| "truthy (Some s) = (s \<noteq> [])"

text \<open>\<^verbatim>\<open>s && s.has(x)\<close> and \<^verbatim>\<open>s?.has(x)\<close> as conditions, for a set that may be null.\<close>

fun has :: "string set option \<Rightarrow> string \<Rightarrow> bool" where
  "has None x = False"
| "has (Some s) x = (x \<in> s)"

text \<open>The callback of \<^verbatim>\<open>users.filter\<close>.\<close>

definition keepUser ::
  "string set option \<Rightarrow> string set option \<Rightarrow> string option \<Rightarrow> bool \<Rightarrow> user \<Rightarrow> bool" where
  "keepUser excludeSet selectedSet team' excludeNullTimezones u =
     (if has excludeSet (name u) then False
      else if (case selectedSet of None \<Rightarrow> False | Some s \<Rightarrow> card s > 0 \<and> name u \<notin> s) then False
      else if team' \<noteq> None \<and> team' \<noteq> Some [] \<and> team u \<noteq> team' then False
      else if excludeNullTimezones \<and> \<not> truthy (timezone u) then False
      else True)"

subsection \<open>Scoring one slot\<close>

record redParticipant =
  red_name :: string
  red_timezone :: "string option"
  red_localLabel :: string

text \<open>The local variables of the slot callback.\<close>

record tally =
  totalScore :: int
  greenCount :: nat
  yellowCount :: nat
  redCount :: nat
  blockedCount :: nat
  redParticipants :: "redParticipant list option"

text \<open>The body of \<^verbatim>\<open>for (const user of participants)\<close>.\<close>

definition scoreUser :: "host \<Rightarrow> string \<Rightarrow> rules \<Rightarrow> int \<Rightarrow> user \<Rightarrow> tally \<Rightarrow> tally" where
  "scoreUser H dateISO rules utcStartMin user t =
     (let l = localMinutesFromUtcSlot H dateISO utcStartMin (timezone user)
      in if isBlocked H (localMin l) (noMeetingWindows user) (Some (localDate l))
         then t\<lparr> totalScore := totalScore t + blockedScore rules,
                 blockedCount := blockedCount t + 1 \<rparr>
         else
           (let sb = getBaseScoreAndBand (localMin l) rules;
                t1 = t\<lparr> totalScore := totalScore t
                          + (baseScore sb + preferenceBoost (localMin l) (preference user) rules) \<rparr>
            in if band sb = BandGreen then t1\<lparr> greenCount := greenCount t1 + 1 \<rparr>
               else if band sb = BandYellow then t1\<lparr> yellowCount := yellowCount t1 + 1 \<rparr>
               else t1\<lparr> redCount := redCount t1 + 1,
                        redParticipants :=
                          (case redParticipants t1 of
                             None \<Rightarrow> None
                           | Some rs \<Rightarrow>
                               Some (rs @ [\<lparr> red_name = name user,
                                             red_timezone = timezone user,
                                             red_localLabel = localLabel l \<rparr>])) \<rparr>))"

fun forUsers :: "host \<Rightarrow> string \<Rightarrow> rules \<Rightarrow> int \<Rightarrow> user list \<Rightarrow> tally \<Rightarrow> tally" where
  "forUsers H dateISO rules utcStartMin [] t = t"
| "forUsers H dateISO rules utcStartMin (user # rest) t =
     forUsers H dateISO rules utcStartMin rest (scoreUser H dateISO rules utcStartMin user t)"

text \<open>The slot record: the tally with the slot's start and the number of participants.\<close>

record slotResult = tally +
  utcStartMin :: int
  participantsCount :: nat

text \<open>The callback of \<^verbatim>\<open>utcSlots.map\<close>.\<close>

definition scoreSlot ::
  "host \<Rightarrow> string \<Rightarrow> rules \<Rightarrow> bool \<Rightarrow> user list \<Rightarrow> int \<Rightarrow> slotResult" where
  "scoreSlot H dateISO rules includeRedParticipants participants utcStartMin' =
     (let t0 = \<lparr> totalScore = 0, greenCount = 0, yellowCount = 0, redCount = 0,
                 blockedCount = 0,
                 redParticipants = (if includeRedParticipants then Some [] else None) \<rparr>;
          t = forUsers H dateISO rules utcStartMin' participants t0
      in \<lparr> totalScore = totalScore t,
           greenCount = greenCount t,
           yellowCount = yellowCount t,
           redCount = redCount t,
           blockedCount = blockedCount t,
           redParticipants = redParticipants t,
           utcStartMin = utcStartMin',
           participantsCount = length participants \<rparr>)"

subsection \<open>Scoring the day\<close>

text \<open>
  The second step of the selection: the participant named by \<^verbatim>\<open>includeYourselfName\<close> is
  appended, in a new array, unless excluded, unknown, without a timezone while those are
  dropped, or present already.
\<close>

definition includeYourself ::
  "user store \<Rightarrow> ref \<Rightarrow> ref \<Rightarrow> string option \<Rightarrow> string set option \<Rightarrow> bool \<Rightarrow> user store \<times> ref" where
  "includeYourself st users participants includeYourselfName excludeSet excludeNullTimezones =
     (case includeYourselfName of
        None \<Rightarrow> (st, participants)
      | Some n \<Rightarrow>
          if n \<noteq> [] \<and> \<not> has excludeSet n then
            (case find (\<lambda>u. name u = n) (st ! users) of
               None \<Rightarrow> (st, participants)
             | Some yourself \<Rightarrow>
                 if (truthy (timezone yourself) \<or> \<not> excludeNullTimezones)
                    \<and> find (\<lambda>p. name p = n) (st ! participants) = None
                 then alloc st (st ! participants @ [yourself])
                 else (st, participants))
          else (st, participants))"

record scoring =
  dateISO :: string
  participants :: ref
  slots :: "slotResult list"

definition scoreSlots48 :: "host \<Rightarrow> user store \<Rightarrow> ref \<Rightarrow> opts \<Rightarrow> user store \<times> scoring" where
  "scoreSlots48 H st users opts =
     (let dateISO' = (case opt_dateISO opts of None \<Rightarrow> today H | Some d \<Rightarrow> d);
          rules = (case opt_rules opts of None \<Rightarrow> DEFAULT_RULES | Some r \<Rightarrow> r);
          excludeNullTimezones = (case opt_excludeNullTimezones opts of None \<Rightarrow> True | Some b \<Rightarrow> b);
          includeRedParticipants = (case opt_includeRedParticipants opts of None \<Rightarrow> True | Some b \<Rightarrow> b);
          selectedSet = map_option set (opt_selectedNames opts);
          excludeSet = map_option set (opt_excludeNames opts);
          (st1, participants') =
             alloc st (filter (keepUser excludeSet selectedSet (opt_team opts) excludeNullTimezones)
                              (st ! users));
          (st2, participants'') =
             includeYourself st1 users participants' (opt_includeYourselfName opts)
                             excludeSet excludeNullTimezones;
          utcSlots = generateUtcSlots48;
          results = map (scoreSlot H dateISO' rules includeRedParticipants (st2 ! participants'')) utcSlots
      in (st2, \<lparr> dateISO = dateISO', participants = participants'', slots = results \<rparr>))"

subsection \<open>Ranking\<close>

text \<open>The comparator passed to \<^verbatim>\<open>sort\<close>.\<close>

definition compareSlots :: "slotResult \<Rightarrow> slotResult \<Rightarrow> int" where
  "compareSlots a b =
     (if blockedCount a \<noteq> blockedCount b then int (blockedCount a) - int (blockedCount b)
      else if redCount a \<noteq> redCount b then int (redCount a) - int (redCount b)
      else if totalScore a \<noteq> totalScore b then totalScore b - totalScore a
      else int (greenCount b) - int (greenCount a))"

text \<open>
  \<^verbatim>\<open>Array.prototype.sort\<close> with a comparator is a stable sort: an element goes before
  another when the comparator is negative, after it when positive, and elements that
  compare as 0 keep their order. Modelled by a stable insertion sort; for the comparator
  of this program the result does not depend on the algorithm (\<open>sortBy_characterised\<close>
  below).
\<close>

fun insertBy :: "('a \<Rightarrow> 'a \<Rightarrow> int) \<Rightarrow> 'a \<Rightarrow> 'a list \<Rightarrow> 'a list" where
  "insertBy cmp x [] = [x]"
| "insertBy cmp x (y # ys) = (if cmp x y \<le> 0 then x # y # ys else y # insertBy cmp x ys)"

fun sortBy :: "('a \<Rightarrow> 'a \<Rightarrow> int) \<Rightarrow> 'a list \<Rightarrow> 'a list" where
  "sortBy cmp [] = []"
| "sortBy cmp (x # xs) = insertBy cmp x (sortBy cmp xs)"

text \<open>\<^verbatim>\<open>a.sort(cmp)\<close> sorts the array in place and returns the same reference.\<close>

definition array_sort :: "('a \<Rightarrow> 'a \<Rightarrow> int) \<Rightarrow> 'a store \<Rightarrow> ref \<Rightarrow> 'a store \<times> ref" where
  "array_sort cmp st a = (st[a := sortBy cmp (st ! a)], a)"

text \<open>\<^verbatim>\<open>[...slots].sort(cmp)\<close>: the copy is a new array, and it is the copy that is sorted.\<close>

definition rankSlots :: "slotResult store \<Rightarrow> ref \<Rightarrow> slotResult store \<times> ref" where
  "rankSlots st slots' =
     (let (st1, copy) = alloc st (st ! slots')
      in array_sort compareSlots st1 copy)"

subsection \<open>A concrete host\<close>

text \<open>
  The theorems below hold for every host. Where a concrete one is needed, this is it.
  \<open>Number_dec\<close> is the host's \<^verbatim>\<open>Number\<close> on its decimal-integer fragment: white space
  around the text is dropped, the empty text is 0, an optional sign followed by decimal
  digits is that integer, and a text with any other character is NaN. (The host also reads
  fractions, exponents, radix prefixes and \<^verbatim>\<open>Infinity\<close>; such texts are outside the
  fragment, and nothing below evaluates \<open>Number_dec\<close> on one.) \<open>utcZone\<close> is the
  wall-clock time of the zone UTC on the anchor date, for a slot of that day.
\<close>

definition isSpace :: "char \<Rightarrow> bool" where
  "isSpace c = (c \<in> set [CHR '' '', CHR 0x09, CHR 0x0A, CHR 0x0B, CHR 0x0C, CHR 0x0D])"

definition isDigit :: "char \<Rightarrow> bool" where
  "isDigit c = (c \<in> set ''0123456789'')"

definition digitsValue :: "string \<Rightarrow> int" where
  "digitsValue ds = foldl (\<lambda>n c. 10 * n + (int (of_char c) - 48)) 0 ds"

definition trim :: "string \<Rightarrow> string" where
  "trim s = rev (dropWhile isSpace (rev (dropWhile isSpace s)))"

definition Number_dec :: "string \<Rightarrow> jsnum" where
  "Number_dec s =
     (let t = trim s;
          neg = (case t of [] \<Rightarrow> False | c # r \<Rightarrow> c = CHR ''-'');
          ds = (case t of [] \<Rightarrow> [] | c # r \<Rightarrow> if c = CHR ''-'' \<or> c = CHR ''+'' then r else t)
      in if t = [] then Num 0
         else if ds \<noteq> [] \<and> list_all isDigit ds
         then Num (if neg then - digitsValue ds else digitsValue ds)
         else NaN)"

definition twoDigits :: "int \<Rightarrow> string" where
  "twoDigits n = [char_of (48 + n div 10), char_of (48 + n mod 10)]"

definition utcZone :: "string \<Rightarrow> int \<Rightarrow> string option \<Rightarrow> zoned" where
  "utcZone date utcMin tz =
     \<lparr> hour = utcMin div 60,
       minute = utcMin mod 60,
       toISO = date @ ''T'' @ twoDigits (utcMin div 60) @ '':'' @ twoDigits (utcMin mod 60)
               @ '':00.000Z'',
       toFormat = (\<lambda>f. if f = ''HH:mm''
                        then twoDigits (utcMin div 60) @ '':'' @ twoDigits (utcMin mod 60)
                        else date) \<rparr>"

definition utcHost :: host where
  "utcHost = \<lparr> Number = Number_dec, zoneTime = utcZone, today = ''2026-02-25'' \<rparr>"

subsection \<open>Notions used in the statements\<close>

text \<open>
  The options with their defaults applied, and the result of \<^verbatim>\<open>users.filter\<close>, as
  \<open>scoreSlots48\<close> computes them.
\<close>

definition optDate :: "host \<Rightarrow> opts \<Rightarrow> string" where
  "optDate H opts = (case opt_dateISO opts of None \<Rightarrow> today H | Some d \<Rightarrow> d)"

definition optRules :: "opts \<Rightarrow> rules" where
  "optRules opts = (case opt_rules opts of None \<Rightarrow> DEFAULT_RULES | Some r \<Rightarrow> r)"

definition optExcludeNull :: "opts \<Rightarrow> bool" where
  "optExcludeNull opts = (case opt_excludeNullTimezones opts of None \<Rightarrow> True | Some b \<Rightarrow> b)"

definition optIncludeRed :: "opts \<Rightarrow> bool" where
  "optIncludeRed opts = (case opt_includeRedParticipants opts of None \<Rightarrow> True | Some b \<Rightarrow> b)"

definition filteredUsers :: "opts \<Rightarrow> user list \<Rightarrow> user list" where
  "filteredUsers opts us =
     filter (keepUser (map_option set (opt_excludeNames opts))
                      (map_option set (opt_selectedNames opts))
                      (opt_team opts) (optExcludeNull opts)) us"

text \<open>
  What the loop body computes for a participant in the slot starting at \<open>m\<close>: the local
  time, whether it is blocked, the band, and the score added to the total.
\<close>

definition slotLocal :: "host \<Rightarrow> string \<Rightarrow> int \<Rightarrow> user \<Rightarrow> localTime" where
  "slotLocal H d m u = localMinutesFromUtcSlot H d m (timezone u)"

definition slotBlocked :: "host \<Rightarrow> string \<Rightarrow> int \<Rightarrow> user \<Rightarrow> bool" where
  "slotBlocked H d m u =
     isBlocked H (localMin (slotLocal H d m u)) (noMeetingWindows u)
       (Some (localDate (slotLocal H d m u)))"

definition slotBand :: "host \<Rightarrow> string \<Rightarrow> rules \<Rightarrow> int \<Rightarrow> user \<Rightarrow> band" where
  "slotBand H d rules m u = band (getBaseScoreAndBand (localMin (slotLocal H d m u)) rules)"

definition contribution :: "host \<Rightarrow> string \<Rightarrow> rules \<Rightarrow> int \<Rightarrow> user \<Rightarrow> int" where
  "contribution H d rules m u =
     (if slotBlocked H d m u then blockedScore rules
      else baseScore (getBaseScoreAndBand (localMin (slotLocal H d m u)) rules)
           + preferenceBoost (localMin (slotLocal H d m u)) (preference u) rules)"

text \<open>
  The ranking priority in the words of the specification: fewer blocked, then fewer red,
  then higher total score, then higher green count; and a tie on all four keys.
\<close>

definition ranksBefore :: "slotResult \<Rightarrow> slotResult \<Rightarrow> bool" where
  "ranksBefore a b =
     (blockedCount a < blockedCount b \<or>
      (blockedCount a = blockedCount b \<and>
       (redCount a < redCount b \<or>
        (redCount a = redCount b \<and>
         (totalScore a > totalScore b \<or>
          (totalScore a = totalScore b \<and> greenCount a > greenCount b))))))"

definition sameKeys :: "slotResult \<Rightarrow> slotResult \<Rightarrow> bool" where
  "sameKeys a b =
     (blockedCount a = blockedCount b \<and> redCount a = redCount b \<and>
      totalScore a = totalScore b \<and> greenCount a = greenCount b)"


subsection \<open>Example data\<close>

definition alice :: user where
  "alice = \<lparr> name = ''alice'', timezone = Some ''UTC'', team = Some ''Engineering'',
             preference = Some ''early_bird'',
             noMeetingWindows =
               Some [\<lparr> win_start = ''12:00'', win_end = ''13:00'', win_date = None \<rparr>] \<rparr>"

definition bob :: user where
  "bob = \<lparr> name = ''bob'', timezone = Some ''UTC'', team = Some ''Design'',
           preference = None, noMeetingWindows = None \<rparr>"

definition carol :: user where
  "carol = \<lparr> name = ''carol'', timezone = None, team = Some ''Design'',
             preference = Some ''night_owl'', noMeetingWindows = None \<rparr>"

definition plainOpts :: opts where
  "plainOpts = \<lparr> opt_dateISO = Some ''2026-02-25'', opt_rules = None, opt_selectedNames = None,
                 opt_team = None, opt_excludeNames = None, opt_includeYourselfName = None,
                 opt_excludeNullTimezones = None, opt_includeRedParticipants = None \<rparr>"

definition yourselfOpts :: opts where
  "yourselfOpts = plainOpts\<lparr> opt_selectedNames := Some [''bob''],
                             opt_includeYourselfName := Some ''alice'' \<rparr>"

definition slotA :: slotResult where
  "slotA = \<lparr> totalScore = 100, greenCount = 5, yellowCount = 0, redCount = 0, blockedCount = 1,
             redParticipants = None, utcStartMin = 0, participantsCount = 6 \<rparr>"

definition slotB :: slotResult where
  "slotB = \<lparr> totalScore = - 5, greenCount = 2, yellowCount = 3, redCount = 1, blockedCount = 0,
             redParticipants = None, utcStartMin = 30, participantsCount = 6 \<rparr>"

definition slotC :: slotResult where
  "slotC = \<lparr> totalScore = - 5, greenCount = 2, yellowCount = 3, redCount = 1, blockedCount = 0,
             redParticipants = None, utcStartMin = 60, participantsCount = 6 \<rparr>"

definition slotD :: slotResult where
  "slotD = \<lparr> totalScore = 4, greenCount = 1, yellowCount = 4, redCount = 1, blockedCount = 0,
             redParticipants = None, utcStartMin = 90, participantsCount = 6 \<rparr>"

section \<open>Properties\<close>

subsection \<open>Range test, bands, boosts and blocks\<close>






lemma windowMatches_iff:
  "windowMatches H t d w \<longleftrightarrow>
     (win_date w = None \<or> win_date w = Some [] \<or> (d \<noteq> None \<and> d = win_date w)) \<and>
     isInRange (Num t) (parseHHMMToMinutes H (win_start w)) (parseHHMMToMinutes H (win_end w))"
  by (auto simp add: windowMatches_def Let_def)

lemma isBlocked_iff:
  "isBlocked H t ws d \<longleftrightarrow>
     (\<exists>l. ws = Some l \<and>
        (\<exists>w \<in> set l.
           (win_date w = None \<or> win_date w = Some [] \<or> (d \<noteq> None \<and> d = win_date w)) \<and>
           isInRange (Num t) (parseHHMMToMinutes H (win_start w))
                     (parseHHMMToMinutes H (win_end w))))"
  by (cases ws) (auto simp add: isBlocked_def list_ex_iff windowMatches_iff)

lemmas Number_dec_defs =
  utcHost_def Number_dec_def trim_def isSpace_def isDigit_def digitsValue_def



text \<open>
  C6. The block test is true exactly when the window list is present and some window of
  it matches: its date is absent or empty, or the local date is given and equal to it, and
  the range test holds of the minute and the window's parsed bounds. An absent list and an
  empty list give false.
\<close>

theorem isBlocked_semantics:
  "(isBlocked H t ws d \<longleftrightarrow>
     (\<exists>l. ws = Some l \<and>
        (\<exists>w \<in> set l.
           (win_date w = None \<or> win_date w = Some [] \<or> (d \<noteq> None \<and> d = win_date w)) \<and>
           isInRange (Num t) (parseHHMMToMinutes H (win_start w))
                     (parseHHMMToMinutes H (win_end w))))) \<and>
   \<not> isBlocked H t None d \<and> \<not> isBlocked H t (Some []) d"
  by (simp add: isBlocked_iff)

theorem isBlocked_semantics_witness:
  "isBlocked utcHost 750
     (Some [\<lparr> win_start = ''09:00'', win_end = ''10:00'', win_date = None \<rparr>,
            \<lparr> win_start = ''12:00'', win_end = ''13:00'', win_date = Some ''2026-02-25'' \<rparr>])
     (Some ''2026-02-25'') \<and>
   \<not> isBlocked utcHost 750
     (Some [\<lparr> win_start = ''09:00'', win_end = ''10:00'', win_date = None \<rparr>,
            \<lparr> win_start = ''12:00'', win_end = ''13:00'', win_date = Some ''2026-02-25'' \<rparr>])
     (Some ''2026-02-26'') \<and>
   isBlocked utcHost 30
     (Some [\<lparr> win_start = ''23:00'', win_end = ''01:00'', win_date = Some [] \<rparr>]) None"
  using isBlocked_semantics [of utcHost 750
      "Some [\<lparr> win_start = ''09:00'', win_end = ''10:00'', win_date = None \<rparr>,
             \<lparr> win_start = ''12:00'', win_end = ''13:00'', win_date = Some ''2026-02-25'' \<rparr>]"
      "Some ''2026-02-25''"]
    isBlocked_semantics [of utcHost 750
      "Some [\<lparr> win_start = ''09:00'', win_end = ''10:00'', win_date = None \<rparr>,
             \<lparr> win_start = ''12:00'', win_end = ''13:00'', win_date = Some ''2026-02-25'' \<rparr>]"
      "Some ''2026-02-26''"]
    isBlocked_semantics [of utcHost 30
      "Some [\<lparr> win_start = ''23:00'', win_end = ''01:00'', win_date = Some [] \<rparr>]" None]
  by (simp add: parseHHMMToMinutes_def Number_dec_defs isInRange_def)

subsection \<open>Parsing a window bound\<close>






subsection \<open>The score of the second yellow range\<close>

lemma gbb_yellow2_score:
  "getBaseScoreAndBand t (rules\<lparr>yellow2 := (yellow2 rules)\<lparr>score := x\<rparr>\<rparr>) = getBaseScoreAndBand t rules"
  by (simp add: getBaseScoreAndBand_def)

lemma boost_yellow2_score:
  "preferenceBoost t p (rules\<lparr>yellow2 := (yellow2 rules)\<lparr>score := x\<rparr>\<rparr>) = preferenceBoost t p rules"
  by (simp add: preferenceBoost_def)

lemma scoreUser_yellow2_score:
  "scoreUser H d (rules\<lparr>yellow2 := (yellow2 rules)\<lparr>score := x\<rparr>\<rparr>) m u t = scoreUser H d rules m u t"
  by (simp add: scoreUser_def gbb_yellow2_score boost_yellow2_score Let_def)

lemma forUsers_yellow2_score:
  "forUsers H d (rules\<lparr>yellow2 := (yellow2 rules)\<lparr>score := x\<rparr>\<rparr>) m us t = forUsers H d rules m us t"
  by (induction us arbitrary: t) (simp_all add: scoreUser_yellow2_score)

lemma scoreSlot_yellow2_score:
  "scoreSlot H d (rules\<lparr>yellow2 := (yellow2 rules)\<lparr>score := x\<rparr>\<rparr>) inc ps = scoreSlot H d rules inc ps"
  by (rule ext) (simp add: scoreSlot_def forUsers_yellow2_score Let_def)

lemma scoreSlots48_yellow2_score:
  "scoreSlots48 H st users (opts\<lparr>opt_rules := Some (r\<lparr>yellow2 := (yellow2 r)\<lparr>score := x\<rparr>\<rparr>)\<rparr>)
   = scoreSlots48 H st users (opts\<lparr>opt_rules := Some r\<rparr>)"
  by (simp add: scoreSlots48_def scoreSlot_yellow2_score Let_def)

text \<open>
  C10. A minute in the second yellow range and not in the green range is classified yellow
  with the score of the first yellow range; the score field of the second yellow range is
  never read: changing it changes neither the classifier's result nor the result of a scoring
  run.
\<close>

theorem yellow2_score_unused:
  "(isInRange (Num t) (Num (band_start (yellow2 rules))) (Num (band_end (yellow2 rules))) \<and>
    \<not> isInRange (Num t) (Num (band_start (green rules))) (Num (band_end (green rules)))
    \<longrightarrow> getBaseScoreAndBand t rules = \<lparr> baseScore = score (yellow1 rules), band = BandYellow \<rparr>) \<and>
   getBaseScoreAndBand t (rules\<lparr>yellow2 := (yellow2 rules)\<lparr>score := x\<rparr>\<rparr>)
     = getBaseScoreAndBand t rules \<and>
   scoreSlots48 H st users (opts\<lparr>opt_rules := Some (rules\<lparr>yellow2 := (yellow2 rules)\<lparr>score := x\<rparr>\<rparr>)\<rparr>)
     = scoreSlots48 H st users (opts\<lparr>opt_rules := Some rules\<rparr>)"
  by (simp add: gbb_yellow2_score scoreSlots48_yellow2_score getBaseScoreAndBand_def)

theorem yellow2_score_unused_witness:
  "baseScore (getBaseScoreAndBand 1200
      (DEFAULT_RULES\<lparr>yellow2 := (yellow2 DEFAULT_RULES)\<lparr>score := 7\<rparr>\<rparr>)) = 2"
  using yellow2_score_unused [of 1200 "DEFAULT_RULES\<lparr>yellow2 := (yellow2 DEFAULT_RULES)\<lparr>score := 7\<rparr>\<rparr>"]
  by (simp add: DEFAULT_RULES_def isInRange_def)

subsection \<open>The slot loop\<close>

lemma pushSlots_eq: "pushSlots i acc = acc @ map (\<lambda>k. int k * 30) [i..<48]"
proof (induction i acc rule: pushSlots.induct)
  case (1 i slots')
  show ?case
  proof (cases "i < 48")
    case True
    then have "pushSlots i slots' = pushSlots (i + 1) (slots' @ [int i * 30])"
      by (simp add: pushSlots.simps [of i])
    also have "\<dots> = (slots' @ [int i * 30]) @ map (\<lambda>k. int k * 30) [i + 1..<48]"
      using "1.IH" True by simp
    also have "\<dots> = slots' @ map (\<lambda>k. int k * 30) [i..<48]"
      using True by (simp add: upt_conv_Cons)
    finally show ?thesis .
  next
    case False
    then show ?thesis by (simp add: pushSlots.simps [of i])
  qed
qed

lemma generateUtcSlots48_eq: "generateUtcSlots48 = map (\<lambda>k. int k * 30) [0..<48]"
  by (simp add: generateUtcSlots48_def pushSlots_eq)

lemma scoreUser_cases:
  "scoreUser H d rules m u t =
     (if slotBlocked H d m u
      then t\<lparr> totalScore := totalScore t + contribution H d rules m u,
              blockedCount := blockedCount t + 1 \<rparr>
      else if slotBand H d rules m u = BandGreen
      then t\<lparr> totalScore := totalScore t + contribution H d rules m u,
              greenCount := greenCount t + 1 \<rparr>
      else if slotBand H d rules m u = BandYellow
      then t\<lparr> totalScore := totalScore t + contribution H d rules m u,
              yellowCount := yellowCount t + 1 \<rparr>
      else t\<lparr> totalScore := totalScore t + contribution H d rules m u,
              redCount := redCount t + 1,
              redParticipants :=
                (case redParticipants t of
                   None \<Rightarrow> None
                 | Some rs \<Rightarrow> Some (rs @ [\<lparr> red_name = name u, red_timezone = timezone u,
                                            red_localLabel =
                                              localLabel (localMinutesFromUtcSlot H d m (timezone u)) \<rparr>])) \<rparr>)"
  by (simp add: scoreUser_def slotBlocked_def slotBand_def contribution_def slotLocal_def Let_def)

lemma forUsers_totalScore:
  "totalScore (forUsers H d rules m us t) = totalScore t + sum_list (map (contribution H d rules m) us)"
  by (induction us arbitrary: t) (simp_all add: scoreUser_cases)

lemma forUsers_blockedCount:
  "blockedCount (forUsers H d rules m us t) = blockedCount t + length (filter (slotBlocked H d m) us)"
  by (induction us arbitrary: t) (simp_all add: scoreUser_cases)

lemma forUsers_greenCount:
  "greenCount (forUsers H d rules m us t)
   = greenCount t + length (filter (\<lambda>u. \<not> slotBlocked H d m u \<and> slotBand H d rules m u = BandGreen) us)"
  by (induction us arbitrary: t) (simp_all add: scoreUser_cases)

lemma forUsers_yellowCount:
  "yellowCount (forUsers H d rules m us t)
   = yellowCount t + length (filter (\<lambda>u. \<not> slotBlocked H d m u \<and> slotBand H d rules m u = BandYellow) us)"
  by (induction us arbitrary: t) (simp_all add: scoreUser_cases)

lemma forUsers_redCount:
  "redCount (forUsers H d rules m us t)
   = redCount t + length (filter (\<lambda>u. \<not> slotBlocked H d m u \<and> slotBand H d rules m u = BandRed) us)"
proof (induction us arbitrary: t)
  case Nil
  then show ?case by simp
next
  case (Cons u us)
  then show ?case by (cases "slotBand H d rules m u") (simp_all add: scoreUser_cases)
qed

lemma scoreUser_counts:
  "greenCount (scoreUser H d rules m u t) + yellowCount (scoreUser H d rules m u t)
   + redCount (scoreUser H d rules m u t) + blockedCount (scoreUser H d rules m u t)
   = greenCount t + yellowCount t + redCount t + blockedCount t + 1"
  by (simp add: scoreUser_cases)

lemma forUsers_counts:
  "greenCount (forUsers H d rules m us t) + yellowCount (forUsers H d rules m us t)
   + redCount (forUsers H d rules m us t) + blockedCount (forUsers H d rules m us t)
   = greenCount t + yellowCount t + redCount t + blockedCount t + length us"
proof (induction us arbitrary: t)
  case Nil
  then show ?case by simp
next
  case (Cons u us)
  show ?case
    using Cons.IH [of "scoreUser H d rules m u t"] scoreUser_counts [of H d rules m u t]
    by simp
qed

lemma scoreSlots48_unfold:
  "scoreSlots48 H st users opts =
     (case includeYourself (st @ [filteredUsers opts (st ! users)]) users (length st)
             (opt_includeYourselfName opts) (map_option set (opt_excludeNames opts))
             (optExcludeNull opts) of
        (st2, p) \<Rightarrow>
          (st2, \<lparr> dateISO = optDate H opts, participants = p,
                  slots = map (scoreSlot H (optDate H opts) (optRules opts) (optIncludeRed opts)
                                 (st2 ! p))
                              (map (\<lambda>k. int k * 30) [0..<48]) \<rparr>))"
  by (simp add: scoreSlots48_def alloc_def Let_def optDate_def optRules_def optExcludeNull_def
      optIncludeRed_def filteredUsers_def generateUtcSlots48_eq del: upt_Suc map_map)

lemma scoreSlots48_slots:
  assumes "scoreSlots48 H st users opts = (st', r)"
  shows "slots r = map (scoreSlot H (optDate H opts) (optRules opts) (optIncludeRed opts)
                          (st' ! participants r))
                       (map (\<lambda>k. int k * 30) [0..<48])"
    and "dateISO r = optDate H opts"
  using assms by (auto simp add: scoreSlots48_unfold split: prod.splits)

lemma scoreSlot_fields:
  "totalScore (scoreSlot H d rules inc ps m) = sum_list (map (contribution H d rules m) ps)"
  "blockedCount (scoreSlot H d rules inc ps m) = length (filter (slotBlocked H d m) ps)"
  "greenCount (scoreSlot H d rules inc ps m)
     = length (filter (\<lambda>u. \<not> slotBlocked H d m u \<and> slotBand H d rules m u = BandGreen) ps)"
  "yellowCount (scoreSlot H d rules inc ps m)
     = length (filter (\<lambda>u. \<not> slotBlocked H d m u \<and> slotBand H d rules m u = BandYellow) ps)"
  "redCount (scoreSlot H d rules inc ps m)
     = length (filter (\<lambda>u. \<not> slotBlocked H d m u \<and> slotBand H d rules m u = BandRed) ps)"
  "utcStartMin (scoreSlot H d rules inc ps m) = m"
  "participantsCount (scoreSlot H d rules inc ps m) = length ps"
  by (simp_all add: scoreSlot_def Let_def forUsers_totalScore forUsers_blockedCount
      forUsers_greenCount forUsers_yellowCount forUsers_redCount)

lemma scoreSlot_counts:
  "greenCount (scoreSlot H d rules inc ps m) + yellowCount (scoreSlot H d rules inc ps m)
   + redCount (scoreSlot H d rules inc ps m) + blockedCount (scoreSlot H d rules inc ps m)
   = length ps"
  using forUsers_counts [of H d rules m ps]
  by (simp add: scoreSlot_def Let_def)

lemma scoreUser_one_counter:
  "(blockedCount (scoreUser H d rules m u t) = blockedCount t + 1 \<and>
    greenCount (scoreUser H d rules m u t) = greenCount t \<and>
    yellowCount (scoreUser H d rules m u t) = yellowCount t \<and>
    redCount (scoreUser H d rules m u t) = redCount t) \<or>
   (blockedCount (scoreUser H d rules m u t) = blockedCount t \<and>
    greenCount (scoreUser H d rules m u t) = greenCount t + 1 \<and>
    yellowCount (scoreUser H d rules m u t) = yellowCount t \<and>
    redCount (scoreUser H d rules m u t) = redCount t) \<or>
   (blockedCount (scoreUser H d rules m u t) = blockedCount t \<and>
    greenCount (scoreUser H d rules m u t) = greenCount t \<and>
    yellowCount (scoreUser H d rules m u t) = yellowCount t + 1 \<and>
    redCount (scoreUser H d rules m u t) = redCount t) \<or>
   (blockedCount (scoreUser H d rules m u t) = blockedCount t \<and>
    greenCount (scoreUser H d rules m u t) = greenCount t \<and>
    yellowCount (scoreUser H d rules m u t) = yellowCount t \<and>
    redCount (scoreUser H d rules m u t) = redCount t + 1)"
  by (simp add: scoreUser_cases)

lemma scoreSlots48_participants:
  assumes "scoreSlots48 H st users opts = (st', r)"
  shows "(st', participants r)
         = includeYourself (st @ [filteredUsers opts (st ! users)]) users (length st)
             (opt_includeYourselfName opts) (map_option set (opt_excludeNames opts))
             (optExcludeNull opts)"
  using assms by (auto simp add: scoreSlots48_unfold split: prod.splits)

lemmas example_defs =
  alice_def bob_def carol_def plainOpts_def filteredUsers_def keepUser_def optExcludeNull_def
  includeYourself_def alloc_def

lemma plain_participants:
  "scoreSlots48 utcHost [[alice, bob, carol]] 0 plainOpts = (st', r) \<Longrightarrow>
   st' ! participants r = [alice, bob]"
  using scoreSlots48_participants [of utcHost "[[alice, bob, carol]]" 0 plainOpts st' r]
  by (auto simp add: example_defs)

lemma scoreSlots48_slot_at:
  assumes "scoreSlots48 H st users opts = (st', r)" and "k < 48"
  shows "slots r ! k \<in> set (slots r)"
    and "utcStartMin (slots r ! k) = int k * 30"
proof -
  from assms(2) show "slots r ! k \<in> set (slots r)"
    by (simp add: scoreSlots48_slots(1) [OF assms(1)] del: upt_Suc)
  from assms(2) show "utcStartMin (slots r ! k) = int k * 30"
    by (simp add: scoreSlots48_slots(1) [OF assms(1)] scoreSlot_fields(6) del: upt_Suc)
qed

lemmas slot_eval_defs =
  slotBlocked_def slotLocal_def slotBand_def localMinutesFromUtcSlot_def utcZone_def
  isBlocked_def windowMatches_def parseHHMMToMinutes_def Number_dec_defs isInRange_def
  getBaseScoreAndBand_def preferenceBoost_def DEFAULT_RULES_def optRules_def

text \<open>
  C2. A scoring run yields 48 slot records, starting at 0, 30, ..., 1410, and in each of
  them the green, yellow, red and blocked counts add up to the participants count, which is
  the length of the participant list of the run. One step of the loop adds one to exactly
  one of the four counters and leaves the other three as they are.
\<close>

theorem slot_counts_partition:
  assumes run: "scoreSlots48 H st users opts = (st', r)"
  shows "length (slots r) = 48 \<and>
     map utcStartMin (slots r) = map (\<lambda>k. int k * 30) [0..<48] \<and>
     (\<forall>s \<in> set (slots r).
        greenCount s + yellowCount s + redCount s + blockedCount s = participantsCount s \<and>
        participantsCount s = length (st' ! participants r)) \<and>
     ((blockedCount (scoreUser H d rules m u t) = blockedCount t + 1 \<and>
       greenCount (scoreUser H d rules m u t) = greenCount t \<and>
       yellowCount (scoreUser H d rules m u t) = yellowCount t \<and>
       redCount (scoreUser H d rules m u t) = redCount t) \<or>
      (blockedCount (scoreUser H d rules m u t) = blockedCount t \<and>
       greenCount (scoreUser H d rules m u t) = greenCount t + 1 \<and>
       yellowCount (scoreUser H d rules m u t) = yellowCount t \<and>
       redCount (scoreUser H d rules m u t) = redCount t) \<or>
      (blockedCount (scoreUser H d rules m u t) = blockedCount t \<and>
       greenCount (scoreUser H d rules m u t) = greenCount t \<and>
       yellowCount (scoreUser H d rules m u t) = yellowCount t + 1 \<and>
       redCount (scoreUser H d rules m u t) = redCount t) \<or>
      (blockedCount (scoreUser H d rules m u t) = blockedCount t \<and>
       greenCount (scoreUser H d rules m u t) = greenCount t \<and>
       yellowCount (scoreUser H d rules m u t) = yellowCount t \<and>
       redCount (scoreUser H d rules m u t) = redCount t + 1))"
proof -
  have len: "length (slots r) = 48"
    by (simp add: scoreSlots48_slots(1) [OF run])
  have starts: "map utcStartMin (slots r) = map (\<lambda>k. int k * 30) [0..<48]"
    unfolding scoreSlots48_slots(1) [OF run]
    by (simp add: scoreSlot_fields(6) comp_def del: upt_Suc)
  have "greenCount s + yellowCount s + redCount s + blockedCount s = participantsCount s \<and>
        participantsCount s = length (st' ! participants r)" if "s \<in> set (slots r)" for s
  proof -
    from that obtain m where
      eq: "s = scoreSlot H (optDate H opts) (optRules opts) (optIncludeRed opts) (st' ! participants r) m"
      unfolding scoreSlots48_slots(1) [OF run] by auto
    show ?thesis
      unfolding eq by (simp only: scoreSlot_counts scoreSlot_fields(7))
  qed
  then have counts: "\<forall>s \<in> set (slots r).
        greenCount s + yellowCount s + redCount s + blockedCount s = participantsCount s \<and>
        participantsCount s = length (st' ! participants r)"
    by (intro ballI)
  show ?thesis
    by (intro conjI) (rule len starts counts scoreUser_one_counter)+
qed

theorem slot_counts_partition_witness:
  "length (slots (snd (scoreSlots48 utcHost [[alice, bob, carol]] 0 plainOpts))) = 48 \<and>
   greenCount (slots (snd (scoreSlots48 utcHost [[alice, bob, carol]] 0 plainOpts)) ! 25)
   + yellowCount (slots (snd (scoreSlots48 utcHost [[alice, bob, carol]] 0 plainOpts)) ! 25)
   + redCount (slots (snd (scoreSlots48 utcHost [[alice, bob, carol]] 0 plainOpts)) ! 25)
   + blockedCount (slots (snd (scoreSlots48 utcHost [[alice, bob, carol]] 0 plainOpts)) ! 25)
   = participantsCount (slots (snd (scoreSlots48 utcHost [[alice, bob, carol]] 0 plainOpts)) ! 25) \<and>
   participantsCount (slots (snd (scoreSlots48 utcHost [[alice, bob, carol]] 0 plainOpts)) ! 25) = 2"
proof -
  obtain st' r where run: "scoreSlots48 utcHost [[alice, bob, carol]] 0 plainOpts = (st', r)"
    by (cases "scoreSlots48 utcHost [[alice, bob, carol]] 0 plainOpts")
  note t = slot_counts_partition [OF run]
  have s25: "slots r ! 25 \<in> set (slots r)"
    using scoreSlots48_slot_at(1) [OF run, of 25] by simp
  show ?thesis
    using t [THEN conjunct1]
      t [THEN conjunct2, THEN conjunct2, THEN conjunct1, rule_format, OF s25]
      plain_participants [OF run]
    by (simp add: run)
qed

text \<open>
  C3. In every slot record of a run the total score is the sum, over the participants, of
  the blocked score for a blocked participant and of base score plus preference boost for
  any other; the blocked count is the number of blocked participants, and each band count
  is the number of participants that are not blocked and have that band.
\<close>

theorem slot_totalScore_sum:
  "scoreSlots48 H st users opts = (st', r) \<Longrightarrow>
     \<forall>s \<in> set (slots r).
        totalScore s
          = (\<Sum>u\<leftarrow>st' ! participants r.
               if slotBlocked H (dateISO r) (utcStartMin s) u then blockedScore (optRules opts)
               else baseScore (getBaseScoreAndBand
                                 (localMin (slotLocal H (dateISO r) (utcStartMin s) u)) (optRules opts))
                    + preferenceBoost (localMin (slotLocal H (dateISO r) (utcStartMin s) u))
                                      (preference u) (optRules opts)) \<and>
        blockedCount s
          = length (filter (slotBlocked H (dateISO r) (utcStartMin s)) (st' ! participants r)) \<and>
        greenCount s
          = length (filter (\<lambda>u. \<not> slotBlocked H (dateISO r) (utcStartMin s) u \<and>
                                 slotBand H (dateISO r) (optRules opts) (utcStartMin s) u = BandGreen)
                           (st' ! participants r)) \<and>
        yellowCount s
          = length (filter (\<lambda>u. \<not> slotBlocked H (dateISO r) (utcStartMin s) u \<and>
                                 slotBand H (dateISO r) (optRules opts) (utcStartMin s) u = BandYellow)
                           (st' ! participants r)) \<and>
        redCount s
          = length (filter (\<lambda>u. \<not> slotBlocked H (dateISO r) (utcStartMin s) u \<and>
                                 slotBand H (dateISO r) (optRules opts) (utcStartMin s) u = BandRed)
                           (st' ! participants r))"
proof
  fix s
  assume run: "scoreSlots48 H st users opts = (st', r)" and s: "s \<in> set (slots r)"
  from s obtain m where
    eq: "s = scoreSlot H (optDate H opts) (optRules opts) (optIncludeRed opts) (st' ! participants r) m"
    unfolding scoreSlots48_slots(1) [OF run] by auto
  show "totalScore s
          = (\<Sum>u\<leftarrow>st' ! participants r.
               if slotBlocked H (dateISO r) (utcStartMin s) u then blockedScore (optRules opts)
               else baseScore (getBaseScoreAndBand
                                 (localMin (slotLocal H (dateISO r) (utcStartMin s) u)) (optRules opts))
                    + preferenceBoost (localMin (slotLocal H (dateISO r) (utcStartMin s) u))
                                      (preference u) (optRules opts)) \<and>
        blockedCount s
          = length (filter (slotBlocked H (dateISO r) (utcStartMin s)) (st' ! participants r)) \<and>
        greenCount s
          = length (filter (\<lambda>u. \<not> slotBlocked H (dateISO r) (utcStartMin s) u \<and>
                                 slotBand H (dateISO r) (optRules opts) (utcStartMin s) u = BandGreen)
                           (st' ! participants r)) \<and>
        yellowCount s
          = length (filter (\<lambda>u. \<not> slotBlocked H (dateISO r) (utcStartMin s) u \<and>
                                 slotBand H (dateISO r) (optRules opts) (utcStartMin s) u = BandYellow)
                           (st' ! participants r)) \<and>
        redCount s
          = length (filter (\<lambda>u. \<not> slotBlocked H (dateISO r) (utcStartMin s) u \<and>
                                 slotBand H (dateISO r) (optRules opts) (utcStartMin s) u = BandRed)
                           (st' ! participants r))"
    unfolding eq scoreSlots48_slots(2) [OF run]
    by (simp add: scoreSlot_fields contribution_def [abs_def] cong: if_cong)
qed

theorem slot_totalScore_sum_witness:
  "totalScore (slots (snd (scoreSlots48 utcHost [[alice, bob, carol]] 0 plainOpts)) ! 25) = - 97 \<and>
   blockedCount (slots (snd (scoreSlots48 utcHost [[alice, bob, carol]] 0 plainOpts)) ! 25) = 1 \<and>
   greenCount (slots (snd (scoreSlots48 utcHost [[alice, bob, carol]] 0 plainOpts)) ! 25) = 1 \<and>
   totalScore (slots (snd (scoreSlots48 utcHost [[alice, bob, carol]] 0 plainOpts)) ! 16) = 5"
proof -
  obtain st' r where run: "scoreSlots48 utcHost [[alice, bob, carol]] 0 plainOpts = (st', r)"
    by (cases "scoreSlots48 utcHost [[alice, bob, carol]] 0 plainOpts")
  have ps: "st' ! participants r = [alice, bob]"
    by (rule plain_participants [OF run])
  have d: "dateISO r = ''2026-02-25''"
    by (simp add: scoreSlots48_slots(2) [OF run] optDate_def plainOpts_def)
  have r: "optRules plainOpts = DEFAULT_RULES"
    by (simp add: optRules_def plainOpts_def)
  have s25: "slots r ! 25 \<in> set (slots r)" "utcStartMin (slots r ! 25) = 750"
    using scoreSlots48_slot_at [OF run, of 25] by simp_all
  have s16: "slots r ! 16 \<in> set (slots r)" "utcStartMin (slots r ! 16) = 480"
    using scoreSlots48_slot_at [OF run, of 16] by simp_all
  have a25: "slotBlocked utcHost ''2026-02-25'' 750 alice"
    by (simp add: slot_eval_defs alice_def)
  have b25: "\<not> slotBlocked utcHost ''2026-02-25'' 750 bob"
    by (simp add: slot_eval_defs bob_def)
  have bb25: "slotBand utcHost ''2026-02-25'' DEFAULT_RULES 750 bob = BandGreen"
    by (simp add: slot_eval_defs bob_def)
  have bl25: "localMin (slotLocal utcHost ''2026-02-25'' 750 bob) = 750"
    by (simp add: slot_eval_defs bob_def)
  have a16: "\<not> slotBlocked utcHost ''2026-02-25'' 480 alice"
    by (simp add: slot_eval_defs alice_def)
  have b16: "\<not> slotBlocked utcHost ''2026-02-25'' 480 bob"
    by (simp add: slot_eval_defs bob_def)
  have al16: "localMin (slotLocal utcHost ''2026-02-25'' 480 alice) = 480"
    by (simp add: slot_eval_defs alice_def)
  have bl16: "localMin (slotLocal utcHost ''2026-02-25'' 480 bob) = 480"
    by (simp add: slot_eval_defs bob_def)
  have g: "getBaseScoreAndBand 750 DEFAULT_RULES = \<lparr> baseScore = 3, band = BandGreen \<rparr>"
    "getBaseScoreAndBand 480 DEFAULT_RULES = \<lparr> baseScore = 2, band = BandYellow \<rparr>"
    by (simp_all add: getBaseScoreAndBand_def DEFAULT_RULES_def isInRange_def)
  have p: "preferenceBoost 750 (preference bob) DEFAULT_RULES = 0"
    "preferenceBoost 480 (preference bob) DEFAULT_RULES = 0"
    "preferenceBoost 480 (preference alice) DEFAULT_RULES = 1"
    by (simp_all add: preferenceBoost_def DEFAULT_RULES_def isInRange_def alice_def bob_def)
  have bs: "blockedScore DEFAULT_RULES = - 100"
    by (simp add: DEFAULT_RULES_def)
  show ?thesis
    using slot_totalScore_sum [OF run, rule_format, OF s25(1)]
      slot_totalScore_sum [OF run, rule_format, OF s16(1)]
    by (simp add: run ps d r s25(2) s16(2) a25 b25 bb25 bl25 a16 b16 al16 bl16 g p bs)
qed

text \<open>
  C9. When the participant list of a run is empty, the run yields the 48 slot records with
  total score 0, all four counts 0 and participants count 0.
\<close>

theorem empty_participants_zero_slots:
  "scoreSlots48 H st users opts = (st', r) \<Longrightarrow> st' ! participants r = [] \<Longrightarrow>
     slots r = map (\<lambda>k. \<lparr> totalScore = 0, greenCount = 0, yellowCount = 0, redCount = 0,
                          blockedCount = 0,
                          redParticipants = (if optIncludeRed opts then Some [] else None),
                          utcStartMin = int k * 30, participantsCount = 0 \<rparr>) [0..<48]"
proof -
  assume run: "scoreSlots48 H st users opts = (st', r)" and empty: "st' ! participants r = []"
  show ?thesis
    unfolding scoreSlots48_slots(1) [OF run] empty
    by (simp add: scoreSlot_def Let_def del: upt_Suc)
qed

theorem empty_participants_zero_slots_witness:
  "slots (snd (scoreSlots48 utcHost [[carol]] 0 plainOpts))
   = map (\<lambda>k. \<lparr> totalScore = 0, greenCount = 0, yellowCount = 0, redCount = 0,
                  blockedCount = 0, redParticipants = Some [],
                  utcStartMin = int k * 30, participantsCount = 0 \<rparr>) [0..<48]"
proof -
  obtain st' r where run: "scoreSlots48 utcHost [[carol]] 0 plainOpts = (st', r)"
    by (cases "scoreSlots48 utcHost [[carol]] 0 plainOpts")
  have ps: "st' ! participants r = []"
    using scoreSlots48_participants [OF run] by (auto simp add: example_defs)
  have inc: "optIncludeRed plainOpts"
    by (simp add: optIncludeRed_def plainOpts_def)
  show ?thesis
    using empty_participants_zero_slots [OF run ps] inc
    by (simp add: run del: upt_Suc)
qed

subsection \<open>Including yourself\<close>

lemma find_distinct_name:
  "distinct (map name us) \<Longrightarrow> y \<in> set us \<Longrightarrow> find (\<lambda>u. name u = name y) us = Some y"
proof (induction us)
  case Nil
  then show ?case by simp
next
  case (Cons u us)
  show ?case
  proof (cases "u = y")
    case True
    then show ?thesis by simp
  next
    case False
    with Cons.prems have y: "y \<in> set us" by simp
    with Cons.prems have "name u \<noteq> name y" by force
    with Cons y show ?thesis by simp
  qed
qed

lemma find_None_name:
  "find (\<lambda>p. name p = n) ps = None \<longleftrightarrow> (\<forall>p \<in> set ps. name p \<noteq> n)"
  by (auto simp add: find_None_iff)

lemma includeYourself_append:
  assumes "includeYourselfName = Some n" "n \<noteq> []" "\<not> has excludeSet n"
    and "find (\<lambda>u. name u = n) (st ! users) = Some y"
    and "truthy (timezone y) \<or> \<not> excludeNullTimezones"
    and "\<forall>p \<in> set (st ! ps). name p \<noteq> n"
  shows "includeYourself st users ps includeYourselfName excludeSet excludeNullTimezones
         = (st @ [st ! ps @ [y]], length st)"
  using assms by (simp add: includeYourself_def alloc_def find_None_name)

text \<open>
  C7. Names are unique in the input list. If \<^verbatim>\<open>includeYourselfName\<close> is the name of a user
  of the list who is not excluded, has a timezone (or users without one are kept) and is not
  in the filtered list, the participant list of the run is the filtered list followed by
  that user's record, whatever the inclusion set; it is a new array, and the input array and
  every other array of the store are as they were.
\<close>

theorem yourself_appended:
  assumes run: "scoreSlots48 H st users opts = (st', r)"
    and valid: "users < length st"
    and yourself: "opt_includeYourselfName opts = Some n" "n \<noteq> []"
    and not_excluded: "\<not> has (map_option set (opt_excludeNames opts)) n"
    and unique: "distinct (map name (st ! users))"
    and named: "y \<in> set (st ! users)" "name y = n"
    and tz: "truthy (timezone y) \<or> \<not> optExcludeNull opts"
    and absent: "y \<notin> set (filteredUsers opts (st ! users))"
  shows "st' ! participants r = filteredUsers opts (st ! users) @ [y] \<and>
         st' ! users = st ! users \<and>
         (\<forall>a < length st. st' ! a = st ! a) \<and>
         participants r \<noteq> users \<and> length st \<le> participants r"
proof -
  let ?st1 = "st @ [filteredUsers opts (st ! users)]"
  have users1: "?st1 ! users = st ! users"
    using valid by (simp add: nth_append)
  have found: "find (\<lambda>u. name u = n) (?st1 ! users) = Some y"
    unfolding users1 using find_distinct_name [OF unique named(1)] named(2) by simp
  have "name p \<noteq> n" if "p \<in> set (filteredUsers opts (st ! users))" for p
  proof
    assume eq: "name p = n"
    from that have p: "p \<in> set (st ! users)" by (simp add: filteredUsers_def)
    from unique p named eq have "p = y"
      by (metis distinct_map inj_onD)
    with that absent show False by simp
  qed
  then have fresh: "\<forall>p \<in> set (?st1 ! length st). name p \<noteq> n" by simp
  have inc: "includeYourself ?st1 users (length st) (opt_includeYourselfName opts)
               (map_option set (opt_excludeNames opts)) (optExcludeNull opts)
             = (?st1 @ [?st1 ! length st @ [y]], length ?st1)"
    by (rule includeYourself_append [OF yourself not_excluded found tz fresh])
  from run have st': "st' = st @ [filteredUsers opts (st ! users), filteredUsers opts (st ! users) @ [y]]"
    and r: "participants r = length st + 1"
    unfolding scoreSlots48_unfold inc by auto
  show ?thesis
    using valid by (auto simp add: st' r nth_append)
qed

theorem yourself_appended_witness:
  "fst (scoreSlots48 utcHost [[alice, bob, carol]] 0 yourselfOpts)
     ! participants (snd (scoreSlots48 utcHost [[alice, bob, carol]] 0 yourselfOpts)) = [bob, alice] \<and>
   fst (scoreSlots48 utcHost [[alice, bob, carol]] 0 yourselfOpts) ! 0 = [alice, bob, carol] \<and>
   participants (snd (scoreSlots48 utcHost [[alice, bob, carol]] 0 yourselfOpts)) \<noteq> 0"
proof -
  obtain st' r where run: "scoreSlots48 utcHost [[alice, bob, carol]] 0 yourselfOpts = (st', r)"
    by (cases "scoreSlots48 utcHost [[alice, bob, carol]] 0 yourselfOpts")
  have f: "filteredUsers yourselfOpts [alice, bob, carol] = [bob]"
    by (simp add: yourselfOpts_def example_defs)
  have h1: "(0::nat) < length [[alice, bob, carol]]" by simp
  have h2: "opt_includeYourselfName yourselfOpts = Some ''alice''" "''alice'' \<noteq> []"
    by (simp_all add: yourselfOpts_def plainOpts_def)
  have h3: "\<not> has (map_option set (opt_excludeNames yourselfOpts)) ''alice''"
    by (simp add: yourselfOpts_def plainOpts_def)
  have h4: "distinct (map name ([[alice, bob, carol]] ! 0))"
    by (simp add: alice_def bob_def carol_def)
  have h5: "alice \<in> set ([[alice, bob, carol]] ! 0)" "name alice = ''alice''"
    by (simp_all add: alice_def)
  have h6: "truthy (timezone alice) \<or> \<not> optExcludeNull yourselfOpts"
    by (simp add: alice_def)
  have h7: "alice \<notin> set (filteredUsers yourselfOpts ([[alice, bob, carol]] ! 0))"
    by (simp add: f) (simp add: alice_def bob_def)
  show ?thesis
    using yourself_appended [OF run h1 h2 h3 h4 h5 h6 h7]
    by (simp add: run f)
qed

subsection \<open>Ranking\<close>

lemma compareSlots_neg_iff: "compareSlots a b < 0 \<longleftrightarrow> ranksBefore a b"
  by (auto simp add: compareSlots_def ranksBefore_def)

lemma compareSlots_zero_iff: "compareSlots a b = 0 \<longleftrightarrow> sameKeys a b"
  by (auto simp add: compareSlots_def sameKeys_def)

lemma compareSlots_pos_iff: "compareSlots a b > 0 \<longleftrightarrow> ranksBefore b a"
  by (auto simp add: compareSlots_def ranksBefore_def)

lemma compareSlots_total: "compareSlots a b \<le> 0 \<or> compareSlots b a \<le> 0"
  by (auto simp add: compareSlots_def)

lemma compareSlots_le_iff: "compareSlots a b \<le> 0 \<longleftrightarrow> \<not> ranksBefore b a"
  using compareSlots_pos_iff [of a b] by linarith

lemma ranksBefore_trans_neg:
  "\<not> ranksBefore b a \<Longrightarrow> \<not> ranksBefore c b \<Longrightarrow> \<not> ranksBefore c a"
  unfolding ranksBefore_def by linarith

lemma compareSlots_trans:
  "compareSlots a b \<le> 0 \<Longrightarrow> compareSlots b c \<le> 0 \<Longrightarrow> compareSlots a c \<le> 0"
  unfolding compareSlots_le_iff by (rule ranksBefore_trans_neg)

lemma set_insertBy: "set (insertBy cmp x xs) = insert x (set xs)"
  by (induction xs) auto

lemma mset_insertBy: "mset (insertBy cmp x xs) = add_mset x (mset xs)"
  by (induction xs) auto

lemma mset_sortBy: "mset (sortBy cmp xs) = mset xs"
  by (induction xs) (auto simp add: mset_insertBy)

lemma sorted_insertBy_compareSlots:
  "sorted_wrt (\<lambda>a b. compareSlots a b \<le> 0) xs \<Longrightarrow>
   sorted_wrt (\<lambda>a b. compareSlots a b \<le> 0) (insertBy compareSlots x xs)"
proof (induction xs)
  case Nil
  then show ?case by simp
next
  case (Cons y ys)
  show ?case
  proof (cases "compareSlots x y \<le> 0")
    case True
    have "compareSlots x z \<le> 0" if "z \<in> set ys" for z
    proof -
      from Cons.prems that have "compareSlots y z \<le> 0" by simp
      with True show ?thesis by (rule compareSlots_trans)
    qed
    with True Cons.prems show ?thesis by simp
  next
    case False
    then have "compareSlots y x \<le> 0" using compareSlots_total [of x y] by simp
    with False Cons show ?thesis
      by (auto simp add: set_insertBy)
  qed
qed

lemma sorted_sortBy_compareSlots:
  "sorted_wrt (\<lambda>a b. compareSlots a b \<le> 0) (sortBy compareSlots xs)"
  by (induction xs) (simp_all add: sorted_insertBy_compareSlots)



lemma filter_insertBy_same:
  "sameKeys k x \<Longrightarrow>
   filter (sameKeys k) (insertBy compareSlots x xs) = x # filter (sameKeys k) xs"
proof (induction xs)
  case Nil
  then show ?case by simp
next
  case (Cons y ys)
  show ?case
  proof (cases "compareSlots x y \<le> 0")
    case True
    with Cons.prems show ?thesis by simp
  next
    case False
    then have "\<not> sameKeys x y" by (simp add: compareSlots_zero_iff [symmetric])
    with Cons.prems have "\<not> sameKeys k y" by (auto simp add: sameKeys_def)
    with False Cons show ?thesis by simp
  qed
qed

lemma filter_insertBy_other:
  "\<not> sameKeys k x \<Longrightarrow>
   filter (sameKeys k) (insertBy compareSlots x xs) = filter (sameKeys k) xs"
  by (induction xs) auto

lemma filter_sortBy_stable:
  "filter (sameKeys k) (sortBy compareSlots xs) = filter (sameKeys k) xs"
  by (induction xs) (auto simp add: filter_insertBy_same filter_insertBy_other)

text \<open>
  The comparator is a total preorder on slot records, so the sorted, stable permutation of
  an array is unique: whatever algorithm the engine's sort uses, its result is the one of
  \<open>sortBy\<close>.
\<close>

lemma sameKeys_refl: "sameKeys a a"
  by (simp add: sameKeys_def)

lemma sameKeys_trichotomy: "\<not> ranksBefore a b \<Longrightarrow> \<not> ranksBefore b a \<Longrightarrow> sameKeys a b"
  unfolding ranksBefore_def sameKeys_def by linarith

lemma stable_sorted_unique:
  "sorted_wrt (\<lambda>a b. compareSlots a b \<le> 0) xs \<Longrightarrow>
   sorted_wrt (\<lambda>a b. compareSlots a b \<le> 0) ys \<Longrightarrow>
   mset xs = mset ys \<Longrightarrow>
   (\<And>k. filter (sameKeys k) xs = filter (sameKeys k) ys) \<Longrightarrow>
   xs = ys"
proof (induction xs arbitrary: ys)
  case Nil
  then show ?case by simp
next
  case (Cons x xs)
  from Cons.prems(3) obtain y ys' where ys: "ys = y # ys'"
    by (cases ys) auto
  from Cons.prems(3) have "y \<in> set (x # xs)"
    unfolding ys by (metis list.set_intros(1) set_mset_mset)
  with Cons.prems(1) have xy: "compareSlots x y \<le> 0"
    using compareSlots_total [of x x] by auto
  from Cons.prems(3) have "x \<in> set (y # ys')"
    unfolding ys by (metis list.set_intros(1) set_mset_mset)
  with Cons.prems(2) have yx: "compareSlots y x \<le> 0"
    unfolding ys using compareSlots_total [of y y] by auto
  from xy yx have same: "sameKeys x y"
    by (simp add: compareSlots_le_iff sameKeys_trichotomy)
  from Cons.prems(4) [of x] same have head: "x = y"
    unfolding ys by (simp add: sameKeys_refl)
  have "xs = ys'"
  proof (rule Cons.IH)
    from Cons.prems(1) show "sorted_wrt (\<lambda>a b. compareSlots a b \<le> 0) xs" by simp
    from Cons.prems(2) show "sorted_wrt (\<lambda>a b. compareSlots a b \<le> 0) ys'"
      unfolding ys by simp
    from Cons.prems(3) show "mset xs = mset ys'"
      unfolding ys head by simp
    fix k
    from Cons.prems(4) [of k] show "filter (sameKeys k) xs = filter (sameKeys k) ys'"
      unfolding ys head by (simp split: if_splits)
  qed
  with head show ?case unfolding ys by simp
qed

lemma sortBy_characterised:
  assumes "sorted_wrt (\<lambda>a b. compareSlots a b \<le> 0) ys"
    and "mset ys = mset xs"
    and "\<And>k. filter (sameKeys k) ys = filter (sameKeys k) xs"
  shows "ys = sortBy compareSlots xs"
proof (rule stable_sorted_unique)
  show "sorted_wrt (\<lambda>a b. compareSlots a b \<le> 0) ys" by fact
  show "sorted_wrt (\<lambda>a b. compareSlots a b \<le> 0) (sortBy compareSlots xs)"
    by (rule sorted_sortBy_compareSlots)
  show "mset ys = mset (sortBy compareSlots xs)"
    by (simp add: assms(2) mset_sortBy)
  fix k
  show "filter (sameKeys k) ys = filter (sameKeys k) (sortBy compareSlots xs)"
    by (simp add: assms(3) filter_sortBy_stable)
qed

lemma rankSlots_unfold:
  "rankSlots st a = (st @ [sortBy compareSlots (st ! a)], length st)"
  by (simp add: rankSlots_def alloc_def array_sort_def)

lemma sorted_wrt_index:
  assumes "sorted_wrt (\<lambda>a b. compareSlots a b \<le> 0) xs"
    and "i < length xs" "j < length xs" "ranksBefore (xs ! i) (xs ! j)"
  shows "i < j"
proof (rule ccontr)
  assume "\<not> i < j"
  then consider "j = i" | "j < i" by linarith
  then show False
  proof cases
    case 1
    with assms(4) show False by (simp add: ranksBefore_def)
  next
    case 2
    with assms(1,2) have "compareSlots (xs ! j) (xs ! i) \<le> 0"
      by (simp add: sorted_wrt_iff_nth_less)
    moreover from assms(4) have "compareSlots (xs ! j) (xs ! i) > 0"
      by (simp add: compareSlots_pos_iff)
    ultimately show False by simp
  qed
qed

lemma rank_example:
  "rankSlots [[slotA, slotB, slotC, slotD]] 0
   = ([[slotA, slotB, slotC, slotD], [slotD, slotB, slotC, slotA]], 1)"
  by (simp add: rankSlots_unfold compareSlots_def slotA_def slotB_def slotC_def slotD_def)

text \<open>
  C4. The comparator is negative exactly when its first argument has, in this order of
  priority, fewer blocked, fewer red, a higher total score or a higher green count, and
  positive exactly when the second has. The ranked array is a permutation of the input in
  which a record that has the priority over another stands before it; in particular a
  record with fewer blocked participants stands before one with more.
\<close>

theorem rankSlots_priority:
  assumes "rankSlots st slots' = (st', r)"
  shows "(compareSlots a b < 0 \<longleftrightarrow> ranksBefore a b) \<and>
         (compareSlots a b > 0 \<longleftrightarrow> ranksBefore b a) \<and>
         mset (st' ! r) = mset (st ! slots') \<and>
         (\<forall>i < length (st' ! r). \<forall>j < length (st' ! r).
            ranksBefore (st' ! r ! i) (st' ! r ! j) \<longrightarrow> i < j) \<and>
         (\<forall>i < length (st' ! r). \<forall>j < length (st' ! r).
            blockedCount (st' ! r ! i) < blockedCount (st' ! r ! j) \<longrightarrow> i < j)"
proof -
  from assms have res: "st' ! r = sortBy compareSlots (st ! slots')"
    by (auto simp add: rankSlots_unfold)
  have sorted: "sorted_wrt (\<lambda>a b. compareSlots a b \<le> 0) (st' ! r)"
    unfolding res by (rule sorted_sortBy_compareSlots)
  have order: "i < j"
    if "i < length (st' ! r)" "j < length (st' ! r)" "ranksBefore (st' ! r ! i) (st' ! r ! j)"
    for i j
    using sorted that by (rule sorted_wrt_index)
  have blocked: "i < j"
    if "i < length (st' ! r)" "j < length (st' ! r)"
      "blockedCount (st' ! r ! i) < blockedCount (st' ! r ! j)"
    for i j
    using that order [of i j] by (simp add: ranksBefore_def)
  have perm: "mset (st' ! r) = mset (st ! slots')"
    unfolding res by (rule mset_sortBy)
  have order': "\<forall>i < length (st' ! r). \<forall>j < length (st' ! r).
            ranksBefore (st' ! r ! i) (st' ! r ! j) \<longrightarrow> i < j"
    by (intro allI impI) (rule order)
  have blocked': "\<forall>i < length (st' ! r). \<forall>j < length (st' ! r).
            blockedCount (st' ! r ! i) < blockedCount (st' ! r ! j) \<longrightarrow> i < j"
    by (intro allI impI) (rule blocked)
  show ?thesis
    by (intro conjI) (rule compareSlots_neg_iff compareSlots_pos_iff perm order' blocked')+
qed

theorem rankSlots_priority_witness:
  "fst (rankSlots [[slotA, slotB, slotC, slotD]] 0) ! snd (rankSlots [[slotA, slotB, slotC, slotD]] 0)
     = [slotD, slotB, slotC, slotA] \<and>
   ranksBefore slotB slotA \<and> ranksBefore slotD slotB \<and> \<not> ranksBefore slotB slotC \<and>
   (1::nat) < length [slotD, slotB, slotC, slotA] \<and> (3::nat) < length [slotD, slotB, slotC, slotA] \<and>
   blockedCount ([slotD, slotB, slotC, slotA] ! 1) < blockedCount ([slotD, slotB, slotC, slotA] ! 3)"
proof -
  note t = rankSlots_priority [OF rank_example]
  have ba: "ranksBefore slotB slotA"
    using t [of slotB slotA, THEN conjunct1]
    by (simp add: compareSlots_def slotA_def slotB_def)
  have db: "ranksBefore slotD slotB"
    using t [of slotD slotB, THEN conjunct1]
    by (simp add: compareSlots_def slotD_def slotB_def)
  have bc: "\<not> ranksBefore slotB slotC"
    using t [of slotB slotC, THEN conjunct1]
    by (simp add: compareSlots_def slotC_def slotB_def)
  have bl: "blockedCount ([slotD, slotB, slotC, slotA] ! 1) < blockedCount ([slotD, slotB, slotC, slotA] ! 3)"
    by (simp add: slotA_def slotB_def)
  from ba db bc bl show ?thesis
    by (simp add: rank_example)
qed



end
